theory Spec2Isabelle
  imports Complex_Main "HOL-Library.Log_Nat"
begin

section \<open>The hundred prisoners simulation (HundredPrisoners.py)\<close>

text \<open>
  A shallow embedding of \<^verbatim>\<open>do_simulation\<close> and \<^verbatim>\<open>vary_parameters\<close>.

  \<^item> Python integers (\<open>N\<close>, \<open>K\<close>, \<open>d\<close>, the seed, \<open>NTrials\<close>) are \<open>int\<close>.
  \<^item> The arrays \<open>seen\<close> and \<open>visited_warden\<close> hold the floats 0.0 and 1.0 only; they are
    lists of \<open>nat\<close>, and their sums are exact.
  \<^item> Exceptions are values of \<open>error\<close>; a call that raises returns \<open>Inl\<close>.
  \<^item> numpy's process-wide generator is not part of the program: it is a parameter
    \<open>np\<close> giving \<^verbatim>\<open>np.random.seed\<close> and \<^verbatim>\<open>np.random.randint\<close> over a generator
    state \<open>'g\<close>, and the state is threaded through every call.
  \<^item> The \<^verbatim>\<open>while\<close> loop has no bound, so it takes fuel: one unit per iteration, and
    \<open>None\<close> when the fuel is used up before the loop ends.
  \<^item> Plotting and file output (\<^verbatim>\<open>do_plot\<close>, \<^verbatim>\<open>show_steps\<close>, \<^verbatim>\<open>savemat\<close>,
    \<^verbatim>\<open>print\<close>) change no value of the program and are left out; the test
    \<^verbatim>\<open>d%K == 0\<close> that guards the frame output is kept, since it raises for \<open>K = 0\<close>.
  \<^item> The coverage is a 64-bit float: \<^verbatim>\<open>np.sum(seen)\<close>, its product by 100 and
    \<^verbatim>\<open>float(seen.size)\<close> are whole numbers that a double holds exactly (below
    \<open>2^53\<close>, far more entries than an array can have), and their quotient is rounded
    to the nearest double, ties to even (\<open>float64_div\<close>); a quotient of such numbers
    neither overflows nor underflows. The value of the double is a \<open>real\<close>.
  \<^item> \<^verbatim>\<open>np.floor(d/K)\<close> and, in the sweep, \<^verbatim>\<open>d/365.0\<close> are computed in exact
    arithmetic.
\<close>

subsection \<open>Data\<close>

datatype error = ValueError | ZeroDivisionError | IndexError | AssertionError

record 'g np_random =
  np_seed :: "int \<Rightarrow> error + 'g"
  np_randint :: "nat \<Rightarrow> 'g \<Rightarrow> nat \<times> 'g"

text \<open>The local variables of \<^verbatim>\<open>do_simulation\<close> that the loop updates.\<close>

record locals =
  seen :: "nat list list"
  visited_warden :: "nat list"
  d :: int
  light_on :: bool

text \<open>The returned dictionary, with its keys \<^verbatim>\<open>'d'\<close>, \<^verbatim>\<open>'coverage'\<close>, \<^verbatim>\<open>'seen'\<close>.\<close>

record result =
  res_d :: int
  res_coverage :: real
  res_seen :: "nat list list"

subsection \<open>numpy operations\<close>

text \<open>\<^verbatim>\<open>np.eye(N)\<close> and \<^verbatim>\<open>np.zeros(N)\<close> raise ValueError for a negative dimension.\<close>

definition np_eye :: "int \<Rightarrow> error + nat list list" where
  "np_eye N =
     (if N < 0 then Inl ValueError
      else Inr (map (\<lambda>i. map (\<lambda>j. if i = j then 1 else 0) [0..<nat N]) [0..<nat N]))"

definition np_zeros :: "int \<Rightarrow> error + nat list" where
  "np_zeros N = (if N < 0 then Inl ValueError else Inr (replicate (nat N) 0))"

text \<open>\<^verbatim>\<open>np.max\<close> raises ValueError on an empty array.\<close>

definition np_max :: "nat list \<Rightarrow> error + nat" where
  "np_max xs = (case xs of [] \<Rightarrow> Inl ValueError | y # ys \<Rightarrow> Inr (fold max ys y))"

text \<open>
  The division of two doubles that hold the positive whole numbers \<open>a\<close> and \<open>b\<close>: with
  \<open>la\<close> and \<open>lb\<close> their bit lengths, the quotient scaled by \<open>2^(lb + 53 - la)\<close> lies
  between \<open>2^52\<close> and \<open>2^54\<close>; it is halved if it reaches \<open>2^53\<close>, rounded to the nearest
  whole number, ties to even, which is the 53-bit significand, and scaled back.
  A zero dividend gives 0.0. A zero divisor, which gives \<^verbatim>\<open>nan\<close> or \<^verbatim>\<open>inf\<close> in
  numpy, does not occur: \<open>seen\<close> is not empty when the loop has ended.
\<close>

definition round_half_even :: "int \<Rightarrow> int \<Rightarrow> int" where
  "round_half_even a b =
     (let q = a div b; r = a mod b
      in if 2 * r < b then q
         else if b < 2 * r then q + 1
         else if even q then q else q + 1)"

definition float64_div :: "int \<Rightarrow> int \<Rightarrow> real" where
  "float64_div a b =
     (if a \<le> 0 \<or> b \<le> 0 then 0
      else
        let la = nat (bitlen a); lb = nat (bitlen b);
            A = a * 2 ^ (lb + 53); B = b * 2 ^ la
        in if A < 2 ^ 53 * B
           then real_of_int (round_half_even A B) * 2 ^ la / 2 ^ (lb + 53)
           else real_of_int (round_half_even A (2 * B)) * 2 ^ la / 2 ^ (lb + 52))"

subsection \<open>do\_simulation\<close>

text \<open>\<^verbatim>\<open>if seed: np.random.seed(seed)\<close>: the guard is the truthiness of the seed.\<close>

definition seed_generator :: "'g np_random \<Rightarrow> 'g \<Rightarrow> int option \<Rightarrow> error + 'g" where
  "seed_generator np g seed =
     (case seed of
        None \<Rightarrow> Inr g
      | Some sd \<Rightarrow> if sd \<noteq> 0 then np_seed np sd else Inr g)"

text \<open>The loop condition \<^verbatim>\<open>not np.max(np.sum(seen, 1)) == (N-1)\<close>.\<close>

definition loop_test :: "int \<Rightarrow> nat list list \<Rightarrow> error + bool" where
  "loop_test N sn =
     (case np_max (map sum_list sn) of
        Inl e \<Rightarrow> Inl e
      | Inr m \<Rightarrow> Inr (\<not> (int m = N - 1)))"

text \<open>
  One iteration of the loop body. \<^verbatim>\<open>d%K\<close> raises ZeroDivisionError for \<open>K = 0\<close>, and
  an index outside the array raises IndexError.
\<close>

definition loop_body :: "'g np_random \<Rightarrow> int \<Rightarrow> int \<Rightarrow> 'g \<times> locals \<Rightarrow> error + 'g \<times> locals" where
  "loop_body np N K gs =
     (case gs of (g, s) \<Rightarrow>
        if K = 0 then Inl ZeroDivisionError
        else
          let x = nat ((d s div K) mod N);
              (with_warden, g') = np_randint np (nat N) g
          in if length (visited_warden s) \<le> with_warden then Inl IndexError
             else
               let s1 = s\<lparr>visited_warden := (visited_warden s)[with_warden := 1]\<rparr>;
                   s2 = (if with_warden = x then s1\<lparr>light_on := True\<rparr>
                         else if light_on s1
                         then s1\<lparr>seen := (seen s1)[with_warden := (seen s1 ! with_warden)[x := 1]]\<rparr>
                         else s1);
                   s3 = (if d s mod K = K - 1 then s2\<lparr>light_on := False\<rparr> else s2)
               in Inr (g', s3\<lparr>d := d s + 1\<rparr>))"

fun while_loop ::
  "'g np_random \<Rightarrow> nat \<Rightarrow> int \<Rightarrow> int \<Rightarrow> 'g \<times> locals \<Rightarrow> (error + 'g \<times> locals) option" where
  "while_loop np 0 N K gs =
     (case loop_test N (seen (snd gs)) of
        Inl e \<Rightarrow> Some (Inl e)
      | Inr continue \<Rightarrow> if continue then None else Some (Inr gs))"
| "while_loop np (Suc fuel) N K gs =
     (case loop_test N (seen (snd gs)) of
        Inl e \<Rightarrow> Some (Inl e)
      | Inr continue \<Rightarrow>
          if continue
          then (case loop_body np N K gs of
                  Inl e \<Rightarrow> Some (Inl e)
                | Inr gs' \<Rightarrow> while_loop np fuel N K gs')
          else Some (Inr gs))"

definition do_simulation ::
  "'g np_random \<Rightarrow> nat \<Rightarrow> 'g \<Rightarrow> int option \<Rightarrow> int \<Rightarrow> int \<Rightarrow> (error + result \<times> 'g) option" where
  "do_simulation np fuel g seed N K =
     (case seed_generator np g seed of
        Inl e \<Rightarrow> Some (Inl e)
      | Inr g0 \<Rightarrow>
     (case np_eye N of
        Inl e \<Rightarrow> Some (Inl e)
      | Inr seen0 \<Rightarrow>
     (case np_zeros N of
        Inl e \<Rightarrow> Some (Inl e)
      | Inr visited0 \<Rightarrow>
     (case while_loop np fuel N K
             (g0, \<lparr>seen = seen0, visited_warden = visited0, d = 0, light_on = False\<rparr>) of
        None \<Rightarrow> None
      | Some (Inl e) \<Rightarrow> Some (Inl e)
      | Some (Inr (g1, s)) \<Rightarrow>
          if int (sum_list (visited_warden s)) \<noteq> N then Some (Inl AssertionError)
          else Some (Inr (\<lparr>res_d = d s,
                           res_coverage =
                             float64_div (100 * int (sum_list (map sum_list (seen s))))
                                 (int (sum_list (map length (seen s)))),
                           res_seen = seen s\<rparr>, g1))))))"

subsection \<open>vary\_parameters\<close>




subsection \<open>A scripted generator\<close>

text \<open>
  A stand-in for numpy's generator, for running the model on chosen draws: its state
  is the list of the draws to come; the draw is 0 once the list is used up or when the
  listed value is outside the range, which \<^verbatim>\<open>randint\<close> never leaves; and seeding
  with a valid seed (numpy accepts 0 to \<open>2^32 - 1\<close>) installs a fixed list.
\<close>

definition scripted :: "nat list np_random" where
  "scripted =
     \<lparr>np_seed = (\<lambda>sd. if sd < 0 \<or> 2 ^ 32 \<le> sd then Inl ValueError else Inr [2, 0, 1]),
      np_randint = (\<lambda>n g. case g of [] \<Rightarrow> (0, []) | w # ws \<Rightarrow> (if w < n then w else 0, ws))\<rparr>"

subsection \<open>The executions of the loop\<close>

text \<open>
  The shape of the arrays: \<open>seen\<close> is \<open>N\<close> by \<open>N\<close> with entries 0 and 1, and
  \<open>visited_warden\<close> has \<open>N\<close> entries.
\<close>

definition wf_locals :: "int \<Rightarrow> locals \<Rightarrow> bool" where
  "wf_locals N s \<longleftrightarrow>
     length (seen s) = nat N \<and>
     (\<forall>row \<in> set (seen s). length row = nat N \<and> (\<forall>v \<in> set row. v \<le> 1)) \<and>
     length (visited_warden s) = nat N"

text \<open>
  \<open>loop_run np N K gs0 ws gs\<close>: the loop, started in \<open>gs0\<close>, reaches \<open>gs\<close> at the top
  of an iteration after the days whose draws are \<open>ws\<close> (the draw of day \<open>k\<close> is
  \<open>ws ! k\<close>).
\<close>

inductive loop_run ::
  "'g np_random \<Rightarrow> int \<Rightarrow> int \<Rightarrow> 'g \<times> locals \<Rightarrow> nat list \<Rightarrow> 'g \<times> locals \<Rightarrow> bool"
  for np N K gs0 where
  start: "loop_run np N K gs0 [] gs0"
| day: "loop_run np N K gs0 ws gs1 \<Longrightarrow> loop_test N (seen (snd gs1)) = Inr True \<Longrightarrow>
        loop_body np N K gs1 = Inr gs2 \<Longrightarrow>
        loop_run np N K gs0 (ws @ [fst (np_randint np (nat N) (fst gs1))]) gs2"


section \<open>Lemmas\<close>

subsection \<open>The division of doubles\<close>









subsection \<open>The loop\<close>

lemma loop_body_cases:
  assumes "loop_body np N K (g, s) = Inr (g', s')"
  obtains w where "K \<noteq> 0" "np_randint np (nat N) g = (w, g')" "w < length (visited_warden s)"
    "visited_warden s' = (visited_warden s)[w := 1]"
    "d s' = d s + 1"
    "light_on s' = (d s mod K \<noteq> K - 1 \<and> (w = nat ((d s div K) mod N) \<or> light_on s))"
    "seen s' = (if w \<noteq> nat ((d s div K) mod N) \<and> light_on s
                then (seen s)[w := (seen s ! w)[nat ((d s div K) mod N) := 1]] else seen s)"
  using assms
  by (auto simp: loop_body_def Let_def split: if_splits prod.splits)

lemma wf_init:
  assumes "np_eye N = Inr seen0" "np_zeros N = Inr visited0"
  shows "wf_locals N \<lparr>seen = seen0, visited_warden = visited0, d = 0, light_on = False\<rparr>"
  using assms by (auto simp: wf_locals_def np_eye_def np_zeros_def split: if_splits)

lemma loop_body_wf:
  assumes "wf_locals N s" "loop_body np N K (g, s) = Inr (g', s')"
  shows "wf_locals N s'"
proof -
  from assms(2) obtain w where w: "w < length (visited_warden s)"
    "visited_warden s' = (visited_warden s)[w := 1]"
    "seen s' = (if w \<noteq> nat ((d s div K) mod N) \<and> light_on s
                then (seen s)[w := (seen s ! w)[nat ((d s div K) mod N) := 1]] else seen s)"
    by (rule loop_body_cases)
  show ?thesis
  proof (cases "w \<noteq> nat ((d s div K) mod N) \<and> light_on s")
    case False
    with w assms(1) show ?thesis by (simp add: wf_locals_def)
  next
    case True
    let ?x = "nat ((d s div K) mod N)"
    have wl: "w < length (seen s)" using w(1) assms(1) by (simp add: wf_locals_def)
    have row: "length (seen s ! w) = nat N" "\<forall>v \<in> set (seen s ! w). v \<le> 1"
      using assms(1) wl by (auto simp: wf_locals_def)
    have new: "length ((seen s ! w)[?x := 1]) = nat N \<and> (\<forall>v \<in> set ((seen s ! w)[?x := 1]). v \<le> 1)"
      using row set_update_subset_insert[of "seen s ! w" ?x 1] by auto
    have "\<forall>row \<in> set (seen s'). length row = nat N \<and> (\<forall>v \<in> set row. v \<le> 1)"
    proof
      fix row assume "row \<in> set (seen s')"
      then have "row \<in> insert ((seen s ! w)[?x := 1]) (set (seen s))"
        using True w(3) set_update_subset_insert[of "seen s" w] by auto
      then show "length row = nat N \<and> (\<forall>v \<in> set row. v \<le> 1)"
        using new assms(1) by (auto simp: wf_locals_def)
    qed
    then show ?thesis using True w assms(1) by (simp add: wf_locals_def)
  qed
qed

lemma loop_body_mono:
  assumes "wf_locals N s" "loop_body np N K (g, s) = Inr (g', s')"
    and "i < nat N" "j < nat N"
  shows "seen s ! i ! j \<le> seen s' ! i ! j"
proof -
  from assms(2) obtain w where w: "w < length (visited_warden s)"
    "seen s' = (if w \<noteq> nat ((d s div K) mod N) \<and> light_on s
                then (seen s)[w := (seen s ! w)[nat ((d s div K) mod N) := 1]] else seen s)"
    by (rule loop_body_cases)
  have "seen s ! i \<in> set (seen s)"
    using assms(1,3) by (simp add: wf_locals_def)
  then have row: "length (seen s ! i) = nat N" "\<forall>v \<in> set (seen s ! i). v \<le> 1"
    using assms(1) by (auto simp: wf_locals_def)
  have le1: "seen s ! i ! j \<le> 1"
    using row assms(4) by simp
  show ?thesis
    using w le1 assms(1,3,4)
    by (auto simp: wf_locals_def nth_list_update)
qed

lemma loop_run_wf:
  assumes "loop_run np N K gs0 ws gs1" "wf_locals N (snd gs0)"
  shows "wf_locals N (snd gs1)"
  using assms
proof (induction rule: loop_run.induct)
  case start
  then show ?case by simp
next
  case (day ws gs1 gs2)
  then show ?case using loop_body_wf[of N "snd gs1" np K "fst gs1" "fst gs2" "snd gs2"] by simp
qed

lemma loop_run_mono:
  assumes "loop_run np N K gs1 ws gs2" "wf_locals N (snd gs1)" "i < nat N" "j < nat N"
  shows "seen (snd gs1) ! i ! j \<le> seen (snd gs2) ! i ! j"
  using assms
proof (induction rule: loop_run.induct)
  case start
  then show ?case by simp
next
  case (day ws gs gs')
  have "wf_locals N (snd gs)" using day.hyps(1) day.prems(1) by (rule loop_run_wf)
  then have "seen (snd gs) ! i ! j \<le> seen (snd gs') ! i ! j"
    using loop_body_mono[of N "snd gs" np K "fst gs" "fst gs'" "snd gs'" i j] day by simp
  with day show ?case by simp
qed



lemma div_same_window:
  fixes n K :: int
  assumes "1 \<le> K" "0 \<le> n" "n mod K \<noteq> K - 1"
  shows "(n + 1) div K = n div K"
proof -
  have K2: "2 \<le> K" using assms(1,3) by (cases "K = 1") auto
  have "n mod K < K" "0 \<le> n mod K" using assms(1) by simp_all
  then have r: "0 \<le> n mod K + 1" "n mod K + 1 < K" using assms(3) by simp_all
  have "(n + 1) div K = n div K + 1 div K + (n mod K + 1 mod K) div K"
    by (rule div_add1_eq)
  also have "1 div K = 0" using K2 by (simp add: div_pos_pos_trivial)
  also have "1 mod K = 1" using K2 by (simp add: mod_pos_pos_trivial)
  also have "(n mod K + 1) div K = 0" using r by (simp add: div_pos_pos_trivial)
  finally show ?thesis by simp
qed

lemma loop_run_d:
  assumes "loop_run np N K gs0 ws gs1"
  shows "d (snd gs1) = d (snd gs0) + int (length ws)"
  using assms
proof (induction rule: loop_run.induct)
  case start
  then show ?case by simp
next
  case (day ws gs1 gs2)
  obtain g1 s1 g2 s2 where e: "gs1 = (g1, s1)" "gs2 = (g2, s2)" by (cases gs1, cases gs2) auto
  with day.hyps(3) have "d s2 = d s1 + 1" by (auto elim: loop_body_cases)
  with day.IH e show ?case by simp
qed

lemma loop_run_light:
  assumes "loop_run np N K gs0 ws gs1" "1 \<le> K" "d (snd gs0) = 0" "\<not> light_on (snd gs0)"
    and "light_on (snd gs1)"
  shows "\<exists>k<length ws. int k div K = int (length ws) div K \<and>
           ws ! k = nat ((int (length ws) div K) mod N)"
  using assms
proof (induction rule: loop_run.induct)
  case start
  then show ?case by simp
next
  case (day ws gs1 gs2)
  obtain g1 s1 g2 s2 where e: "gs1 = (g1, s1)" "gs2 = (g2, s2)" by (cases gs1, cases gs2) auto
  have dn: "d s1 = int (length ws)" using loop_run_d[OF day.hyps(1)] day.prems(2) e by simp
  from day.hyps(3) e obtain w where w: "np_randint np (nat N) g1 = (w, g2)"
    "light_on s2 = (d s1 mod K \<noteq> K - 1 \<and> (w = nat ((d s1 div K) mod N) \<or> light_on s1))"
    by (auto elim: loop_body_cases)
  from day.prems(4) e w(2) have nl: "d s1 mod K \<noteq> K - 1"
    and c: "w = nat ((d s1 div K) mod N) \<or> light_on s1" by simp_all
  have same: "(1 + int (length ws)) div K = int (length ws) div K"
    using div_same_window[OF day.prems(1), of "int (length ws)"] nl dn by (simp add: add.commute)
  from c show ?case
  proof
    assume "w = nat ((d s1 div K) mod N)"
    then show ?thesis using w(1) e same dn
      by (intro exI[of _ "length ws"]) simp
  next
    assume "light_on s1"
    with day.IH day.prems e obtain k where k: "k < length ws"
      "int k div K = int (length ws) div K" "ws ! k = nat ((int (length ws) div K) mod N)"
      by auto
    then show ?thesis using same
      by (intro exI[of _ k]) (simp add: nth_append)
  qed
qed

lemma eye_diag:
  assumes "np_eye N = Inr seen0" "i < nat N"
  shows "seen0 ! i ! i = 1"
  using assms by (auto simp: np_eye_def split: if_splits)

lemma sum_list_unit_row:
  "sum_list (map (\<lambda>j. if i = j then 1 else 0) [0..<n]) = (if i < n then 1 else (0::nat))"
  by (induction n) auto

lemma row_sums_eye:
  assumes "np_eye N = Inr seen0"
  shows "map sum_list seen0 = replicate (nat N) 1"
proof -
  have "seen0 = map (\<lambda>i. map (\<lambda>j. if i = j then 1 else 0) [0..<nat N]) [0..<nat N]"
    using assms by (auto simp: np_eye_def split: if_splits)
  then have "map sum_list seen0 = map (\<lambda>i. 1) [0..<nat N]"
    by (simp add: sum_list_unit_row cong: map_cong)
  then show ?thesis by (simp add: map_replicate_const)
qed

lemma np_max_ones: "np_max (replicate (Suc n) 1) = Inr 1"
proof -
  have "fold max (replicate k (1::nat)) 1 = 1" for k
    by (induction k) (simp_all del: fold_replicate)
  then show ?thesis by (simp add: np_max_def del: fold_replicate)
qed

lemma loop_test_eye:
  assumes "np_eye N = Inr seen0" "1 \<le> N"
  shows "loop_test N seen0 = Inr (N \<noteq> 2)"
proof -
  obtain n where n: "nat N = Suc n" using assms(2) by (cases "nat N") auto
  have "map sum_list seen0 = replicate (Suc n) 1"
    using row_sums_eye[OF assms(1)] n by simp
  then have "np_max (map sum_list seen0) = Inr 1"
    by (simp only: np_max_ones)
  then show ?thesis
    by (auto simp: loop_test_def)
qed

lemma loop_run_dayI:
  assumes "loop_run np N K gs0 ws gs1" "loop_test N (seen (snd gs1)) = Inr True"
    and "loop_body np N K gs1 = Inr gs2" "ws' = ws @ [fst (np_randint np (nat N) (fst gs1))]"
  shows "loop_run np N K gs0 ws' gs2"
  using loop_run.day[OF assms(1-3)] assms(4) by simp

lemmas eval_defs = loop_test_def loop_body_def np_max_def np_eye_def np_zeros_def scripted_def
  Let_def upt_rec






lemma while_loop_stopped:
  assumes "loop_test N (seen (snd gs)) = Inr False"
  shows "while_loop np fuel N K gs = Some (Inr gs)"
  using assms by (cases fuel) simp_all

lemma while_loop_test_error:
  assumes "loop_test N (seen (snd gs)) = Inl e"
  shows "while_loop np fuel N K gs = Some (Inl e)"
  using assms by (cases fuel) simp_all

lemma while_loop_single:
  assumes "seen s = [[1]]" "length (visited_warden s) = 1" "K \<noteq> 0"
    and "\<forall>g'. fst (np_randint np 1 g') = 0"
  shows "while_loop np fuel 1 K (g, s) = None"
  using assms(1,2)
proof (induction fuel arbitrary: g s)
  case 0
  then show ?case by (simp add: loop_test_def np_max_def)
next
  case (Suc fuel)
  have t: "loop_test 1 (seen s) = Inr True"
    using Suc.prems by (simp add: loop_test_def np_max_def)
  obtain w g' where r: "np_randint np 1 g = (w, g')" by (cases "np_randint np 1 g")
  then have w0: "w = 0" using assms(4) by (metis fst_conv)
  obtain s' where b: "loop_body np 1 K (g, s) = Inr (g', s')"
    and s': "seen s' = [[1]]" "length (visited_warden s') = 1"
    using Suc.prems assms(3) r w0 by (auto simp: loop_body_def Let_def)
  show ?case using t b Suc.IH[OF s'] by simp
qed

lemma do_simulation_unseeded:
  "do_simulation np fuel g None N K =
     (case np_eye N of
        Inl e \<Rightarrow> Some (Inl e)
      | Inr seen0 \<Rightarrow>
     (case np_zeros N of
        Inl e \<Rightarrow> Some (Inl e)
      | Inr visited0 \<Rightarrow>
     (case while_loop np fuel N K
             (g, \<lparr>seen = seen0, visited_warden = visited0, d = 0, light_on = False\<rparr>) of
        None \<Rightarrow> None
      | Some (Inl e) \<Rightarrow> Some (Inl e)
      | Some (Inr (g1, s)) \<Rightarrow>
          if int (sum_list (visited_warden s)) \<noteq> N then Some (Inl AssertionError)
          else Some (Inr (\<lparr>res_d = d s,
                           res_coverage =
                             float64_div (100 * int (sum_list (map sum_list (seen s))))
                                 (int (sum_list (map length (seen s)))),
                           res_seen = seen s\<rparr>, g1)))))"
  by (simp add: do_simulation_def seed_generator_def)

subsection \<open>The sweep\<close>

















section \<open>The claims\<close>

text \<open>
  Claim C1. The claim: when the loop ends, some row of \<open>seen\<close> has \<open>N - 1\<close> entries
  set besides its diagonal entry. The loop condition compares the row sums, which
  count the diagonal, with \<open>N - 1\<close>: with \<open>N = 3\<close>, \<open>K = 3\<close> and the draws 2, 0, 1 the
  call returns after 3 days, every prisoner has visited, and the fullest row has one
  entry besides its diagonal, not two.
\<close>

theorem stop_before_all_others_known:
  "do_simulation scripted 10 [2, 0, 1] None 3 3 =
     Some (Inr (\<lparr>res_d = 3, res_coverage = 3127499741229511 / 70368744177664,
                 res_seen = [[1, 0, 0], [1, 1, 0], [0, 0, 1]]\<rparr>, []))"
  by code_simp

text \<open>
  Claim C2. The claim: at the stopping condition every prisoner has visited, so the
  assertion never fires. With \<open>N = 3\<close>, \<open>K = 2\<close> and the draws 0, 1 the loop stops after
  two days, prisoner 2 has never visited, and the assertion fails.
\<close>

theorem assertion_fires:
  "do_simulation scripted 10 [0, 1] None 3 2 = Some (Inl AssertionError)"
  by code_simp

text \<open>
  Claim C3, as stated, fails: \<open>do_simulation\<close> checks neither \<open>N\<close> nor \<open>K\<close>. With
  \<open>N = 1\<close> and \<open>K = 10\<close> both arrays are allocated, the loop condition holds, the first
  day is simulated, and after five days the call has neither returned nor raised.
\<close>

theorem no_configuration_check_counterexample:
  "np_eye 1 = Inr [[1]] \<and> np_zeros 1 = Inr [0] \<and> loop_test 1 [[1]] = Inr True \<and>
   loop_body scripted 1 10
     ([], \<lparr>seen = [[1]], visited_warden = [0], d = 0, light_on = False\<rparr>) =
     Inr ([], \<lparr>seen = [[1]], visited_warden = [1], d = 1, light_on = True\<rparr>) \<and>
   do_simulation scripted 5 [] None 1 10 = None"
proof -
  have "do_simulation scripted 5 [] None 1 10 = None" by code_simp
  then show ?thesis by (simp add: eval_defs)
qed

text \<open>
  Claim C3, amended. There is no configuration check and no error of that kind. A
  negative \<open>N\<close> raises ValueError when \<open>seen\<close> is allocated; \<open>N = 0\<close> raises ValueError at
  the first test of the loop condition, after the allocation; with \<open>N = 1\<close>, a nonzero
  \<open>K\<close> and a generator that stays in range, the loop never ends, whatever the fuel;
  \<open>K = 0\<close> raises ZeroDivisionError on the first day when \<open>N = 1\<close> or \<open>N \<ge> 3\<close>; and a
  negative \<open>K\<close> is simulated like any other (\<open>N = 3\<close>, \<open>K = -1\<close>, draws 0, 2, 1, 1
  returns after 4 days).
\<close>

theorem configuration_not_checked:
  "(N < 0 \<longrightarrow> np_eye N = Inl ValueError \<and>
       do_simulation np fuel g None N K = Some (Inl ValueError)) \<and>
   (N = 0 \<longrightarrow> np_eye N = Inr [] \<and>
       do_simulation np fuel g None N K = Some (Inl ValueError)) \<and>
   (N = 1 \<and> K \<noteq> 0 \<and> (\<forall>g'. fst (np_randint np 1 g') = 0) \<longrightarrow>
       do_simulation np fuel g None N K = None) \<and>
   ((N = 1 \<or> 3 \<le> N) \<and> K = 0 \<and> 0 < fuel \<longrightarrow>
       do_simulation np fuel g None N K = Some (Inl ZeroDivisionError)) \<and>
   do_simulation scripted 10 [0, 2, 1, 1] None 3 (- 1) =
     Some (Inr (\<lparr>res_d = 4, res_coverage = 3127499741229511 / 70368744177664,
                 res_seen = [[1, 0, 0], [1, 1, 0], [0, 0, 1]]\<rparr>, []))"
proof -
  have neg: "np_eye N = Inl ValueError \<and> do_simulation np fuel g None N K = Some (Inl ValueError)"
    if "N < 0"
    using that by (simp add: do_simulation_unseeded np_eye_def)
  have zero: "np_eye N = Inr [] \<and> do_simulation np fuel g None N K = Some (Inl ValueError)"
    if "N = 0"
  proof -
    have "loop_test 0 [] = Inl ValueError" by (simp add: loop_test_def np_max_def)
    then have "while_loop np fuel 0 K
        (g, \<lparr>seen = [], visited_warden = [], d = 0, light_on = False\<rparr>) = Some (Inl ValueError)"
      by (intro while_loop_test_error) simp
    then show ?thesis using that
      by (simp add: do_simulation_unseeded np_eye_def np_zeros_def)
  qed
  have one: "do_simulation np fuel g None N K = None"
    if "N = 1 \<and> K \<noteq> 0 \<and> (\<forall>g'. fst (np_randint np 1 g') = 0)"
  proof -
    have "while_loop np fuel 1 K
        (g, \<lparr>seen = [[1]], visited_warden = [0], d = 0, light_on = False\<rparr>) = None"
      using that by (intro while_loop_single) simp_all
    then show ?thesis using that
      by (simp add: do_simulation_unseeded np_eye_def np_zeros_def)
  qed
  have kzero: "do_simulation np fuel g None N K = Some (Inl ZeroDivisionError)"
    if h: "(N = 1 \<or> 3 \<le> N) \<and> K = 0 \<and> 0 < fuel"
  proof -
    from h have N0: "\<not> N < 0" and N1: "1 \<le> N" and N2: "N \<noteq> 2" by auto
    obtain seen0 where e: "np_eye N = Inr seen0" using N0 by (simp add: np_eye_def)
    obtain visited0 where z: "np_zeros N = Inr visited0" using N0 by (simp add: np_zeros_def)
    obtain fuel' where f: "fuel = Suc fuel'" using h by (cases fuel) auto
    have t: "loop_test N seen0 = Inr True" using loop_test_eye[OF e N1] N2 by simp
    have "while_loop np fuel N K
        (g, \<lparr>seen = seen0, visited_warden = visited0, d = 0, light_on = False\<rparr>) =
        Some (Inl ZeroDivisionError)"
      using t h by (simp add: f loop_body_def)
    then show ?thesis by (simp add: do_simulation_unseeded e z)
  qed
  have negK: "do_simulation scripted 10 [0, 2, 1, 1] None 3 (- 1) =
     Some (Inr (\<lparr>res_d = 4, res_coverage = 3127499741229511 / 70368744177664,
                 res_seen = [[1, 0, 0], [1, 1, 0], [0, 0, 1]]\<rparr>, []))"
    by code_simp
  from neg zero one kzero negK show ?thesis by blast
qed

theorem configuration_not_checked_witness:
  "do_simulation scripted 5 [] None (- 1) 10 = Some (Inl ValueError) \<and>
   do_simulation scripted 5 [] None 0 10 = Some (Inl ValueError) \<and>
   do_simulation scripted 5 [3, 1, 4] None 1 10 = None \<and>
   do_simulation scripted 5 [] None 3 0 = Some (Inl ZeroDivisionError)"
proof -
  have c: "\<forall>g'. fst (np_randint scripted 1 g') = 0"
    by (simp add: scripted_def split: list.split)
  have "do_simulation scripted 5 [] None (- 1) 10 = Some (Inl ValueError)"
    using configuration_not_checked[of "- 1" scripted 5 "[]" 10] by simp
  moreover have "do_simulation scripted 5 [] None 0 10 = Some (Inl ValueError)"
    using configuration_not_checked[of 0 scripted 5 "[]" 10] by simp
  moreover have "do_simulation scripted 5 [3, 1, 4] None 1 10 = None"
    using configuration_not_checked[of 1 scripted 5 "[3, 1, 4]" 10] c by simp
  moreover have "do_simulation scripted 5 [] None 3 0 = Some (Inl ZeroDivisionError)"
    using configuration_not_checked[of 3 scripted 5 "[]" 0] by simp
  ultimately show ?thesis by blast
qed

text \<open>
  Claim C4. The claim: for \<open>N \<ge> 2\<close> the stopping condition is unmet at day 0, so at least
  one day is simulated. With \<open>N = 2\<close> every row sum of the identity matrix is
  \<open>1 = N - 1\<close>: the loop body never runs, and the assertion fails since nobody has
  visited, for every \<open>K\<close>, generator and fuel.
\<close>

theorem two_prisoners_no_day:
  "np_eye 2 = Inr [[1, 0], [0, 1]] \<and> loop_test 2 [[1, 0], [0, 1]] = Inr False \<and>
   do_simulation np fuel g None 2 K = Some (Inl AssertionError)"
proof -
  have e: "np_eye 2 = Inr [[1, 0], [0, 1]]" and z: "np_zeros 2 = Inr [0, 0]"
    by (simp_all add: np_eye_def np_zeros_def upt_rec eval_nat_numeral)
  have t: "loop_test 2 [[1, 0], [0, 1]] = Inr False"
    by (simp add: loop_test_def np_max_def)
  then have "while_loop np fuel 2 K
      (g, \<lparr>seen = [[1, 0], [0, 1]], visited_warden = [0, 0], d = 0, light_on = False\<rparr>) =
    Some (Inr (g, \<lparr>seen = [[1, 0], [0, 1]], visited_warden = [0, 0], d = 0, light_on = False\<rparr>))"
    by (intro while_loop_stopped) simp
  then have "do_simulation np fuel g None 2 K = Some (Inl AssertionError)"
    by (simp add: do_simulation_def seed_generator_def e z)
  with e t show ?thesis by simp
qed

text \<open>
  Claim C5. The claim: two runs with the same seed, \<open>N\<close> and \<open>K\<close> return the same
  result, for every seed. With the seed 0, \<open>N = 3\<close> and \<open>K = 3\<close>, a run that starts with the
  generator about to draw 2, 0, 1 returns after 3 days, and a run that starts with
  it about to draw 1, 2, 2, 1, 0 returns after 5 days with another matrix.
\<close>

theorem seed_zero_runs_differ:
  "do_simulation scripted 10 [2, 0, 1] (Some 0) 3 3 =
     Some (Inr (\<lparr>res_d = 3, res_coverage = 3127499741229511 / 70368744177664,
                 res_seen = [[1, 0, 0], [1, 1, 0], [0, 0, 1]]\<rparr>, [])) \<and>
   do_simulation scripted 10 [1, 2, 2, 1, 0] (Some 0) 3 3 =
     Some (Inr (\<lparr>res_d = 5, res_coverage = 3127499741229511 / 70368744177664,
                 res_seen = [[1, 1, 0], [0, 1, 0], [0, 0, 1]]\<rparr>, []))"
  by code_simp

text \<open>
  Claim C6. The seed 0 leaves the generator as it is, so a run with the seed 0 is
  the run with no seed; a run with a nonzero seed does not depend on the state the
  generator was in; and two runs with the seed 0 and the same \<open>N\<close> and \<open>K\<close> can return
  different results.
\<close>

theorem seed_zero_unseeded:
  "seed_generator np g (Some 0) = Inr g \<and>
   do_simulation np fuel g (Some 0) N K = do_simulation np fuel g None N K \<and>
   (sd \<noteq> 0 \<longrightarrow>
      do_simulation np fuel g1 (Some sd) N K = do_simulation np fuel g2 (Some sd) N K) \<and>
   do_simulation scripted 10 [2, 0, 1] (Some 0) 3 3
     \<noteq> do_simulation scripted 10 [1, 0, 2] (Some 0) 3 3"
proof -
  have a: "seed_generator np g (Some 0) = Inr g"
    by (simp add: seed_generator_def)
  have b: "do_simulation np fuel g (Some 0) N K = do_simulation np fuel g None N K"
    by (simp add: do_simulation_def seed_generator_def)
  have c: "do_simulation np fuel g1 (Some sd) N K = do_simulation np fuel g2 (Some sd) N K"
    if "sd \<noteq> 0"
    using that by (simp add: do_simulation_def seed_generator_def)
  have "do_simulation scripted 10 [2, 0, 1] (Some 0) 3 3 =
     Some (Inr (\<lparr>res_d = 3, res_coverage = 3127499741229511 / 70368744177664,
                 res_seen = [[1, 0, 0], [1, 1, 0], [0, 0, 1]]\<rparr>, []))"
    by code_simp
  moreover have "do_simulation scripted 10 [1, 0, 2] (Some 0) 3 3 =
     Some (Inr (\<lparr>res_d = 3, res_coverage = 3127499741229511 / 70368744177664,
                 res_seen = [[1, 0, 0], [0, 1, 0], [1, 0, 1]]\<rparr>, []))"
    by code_simp
  ultimately have e: "do_simulation scripted 10 [2, 0, 1] (Some 0) 3 3
     \<noteq> do_simulation scripted 10 [1, 0, 2] (Some 0) 3 3"
    by simp
  from a b c e show ?thesis by blast
qed

theorem seed_zero_unseeded_witness:
  "(42::int) \<noteq> 0 \<and>
   do_simulation scripted 10 [0, 0, 0] (Some 42) 3 3 =
     Some (Inr (\<lparr>res_d = 3, res_coverage = 3127499741229511 / 70368744177664,
                 res_seen = [[1, 0, 0], [1, 1, 0], [0, 0, 1]]\<rparr>, [])) \<and>
   do_simulation scripted 10 [1, 0, 2] (Some 42) 3 3 =
     do_simulation scripted 10 [0, 0, 0] (Some 42) 3 3"
proof -
  have n: "(42::int) \<noteq> 0" by simp
  have r: "do_simulation scripted 10 [0, 0, 0] (Some 42) 3 3 =
     Some (Inr (\<lparr>res_d = 3, res_coverage = 3127499741229511 / 70368744177664,
                 res_seen = [[1, 0, 0], [1, 1, 0], [0, 0, 1]]\<rparr>, []))"
    by code_simp
  from seed_zero_unseeded[of scripted "[1, 0, 2]" 10 3 3 42 "[1, 0, 2]" "[0, 0, 0]"] n
  have "do_simulation scripted 10 [1, 0, 2] (Some 42) 3 3 =
     do_simulation scripted 10 [0, 0, 0] (Some 42) 3 3"
    by blast
  with n r show ?thesis by blast
qed

text \<open>
  Claim C7. In every state the loop passes through, from the initial one on, the
  diagonal of \<open>seen\<close> is 1; and from any such state to any later one no entry of
  \<open>seen\<close> decreases, so an entry that is 1 is never cleared.
\<close>

theorem seen_diagonal_and_monotone:
  assumes "np_eye N = Inr seen0" "np_zeros N = Inr visited0"
    and "loop_run np N K
           (g0, \<lparr>seen = seen0, visited_warden = visited0, d = 0, light_on = False\<rparr>) ws1 (g1, s1)"
    and "loop_run np N K (g1, s1) ws2 (g2, s2)"
  shows "(\<forall>i<nat N. seen s1 ! i ! i = 1) \<and>
         (\<forall>i<nat N. \<forall>j<nat N. seen s1 ! i ! j \<le> seen s2 ! i ! j)"
proof -
  let ?s0 = "\<lparr>seen = seen0, visited_warden = visited0, d = 0, light_on = False\<rparr>"
  have wf0: "wf_locals N ?s0" using assms(1,2) by (rule wf_init)
  have wf1: "wf_locals N s1" using loop_run_wf[OF assms(3)] wf0 by simp
  have diag: "seen s1 ! i ! i = 1" if i: "i < nat N" for i
  proof -
    have "seen ?s0 ! i ! i \<le> seen s1 ! i ! i"
      using loop_run_mono[OF assms(3) _ i i] wf0 by simp
    then have ge: "1 \<le> seen s1 ! i ! i" using eye_diag[OF assms(1) i] by simp
    have "seen s1 ! i \<in> set (seen s1)" using wf1 i by (simp add: wf_locals_def)
    then have "length (seen s1 ! i) = nat N" "\<forall>v \<in> set (seen s1 ! i). v \<le> 1"
      using wf1 by (auto simp: wf_locals_def)
    then have "seen s1 ! i ! i \<le> 1" using i by simp
    with ge show ?thesis by simp
  qed
  have mono: "seen s1 ! i ! j \<le> seen s2 ! i ! j" if "i < nat N" "j < nat N" for i j
    using loop_run_mono[OF assms(4) _ that] wf1 by simp
  from diag mono show ?thesis by blast
qed

theorem seen_diagonal_and_monotone_witness:
  "loop_run scripted 3 3
     ([2, 0, 1], \<lparr>seen = [[1, 0, 0], [0, 1, 0], [0, 0, 1]], visited_warden = [0, 0, 0],
                  d = 0, light_on = False\<rparr>)
     [2, 0]
     ([1], \<lparr>seen = [[1, 0, 0], [0, 1, 0], [0, 0, 1]], visited_warden = [1, 0, 1],
            d = 2, light_on = True\<rparr>) \<and>
   loop_run scripted 3 3
     ([1], \<lparr>seen = [[1, 0, 0], [0, 1, 0], [0, 0, 1]], visited_warden = [1, 0, 1],
            d = 2, light_on = True\<rparr>)
     [1]
     ([], \<lparr>seen = [[1, 0, 0], [1, 1, 0], [0, 0, 1]], visited_warden = [1, 1, 1],
           d = 3, light_on = False\<rparr>) \<and>
   [[1, 0, 0], [0, 1, 0], [0, 0, 1::nat]] ! 0 ! 0 = 1 \<and>
   [[1, 0, 0], [0, 1, 0], [0, 0, 1::nat]] ! 1 ! 1 = 1 \<and>
   [[1, 0, 0], [0, 1, 0], [0, 0, 1::nat]] ! 2 ! 2 = 1 \<and>
   [[1, 0, 0], [0, 1, 0], [0, 0, 1::nat]] ! 1 ! 0 \<le> [[1, 0, 0], [1, 1, 0], [0, 0, 1]] ! 1 ! 0 \<and>
   [[1, 0, 0], [0, 1, 0], [0, 0, 1::nat]] ! 2 ! 2 \<le> [[1, 0, 0], [1, 1, 0], [0, 0, 1]] ! 2 ! 2"
proof -
  let ?s0 = "\<lparr>seen = [[1, 0, 0], [0, 1, 0], [0, 0, 1]], visited_warden = [0, 0, 0],
                  d = 0, light_on = False\<rparr>"
  let ?s1 = "\<lparr>seen = [[1, 0, 0], [0, 1, 0], [0, 0, 1]], visited_warden = [0, 0, 1],
                  d = 1, light_on = False\<rparr>"
  let ?s2 = "\<lparr>seen = [[1, 0, 0], [0, 1, 0], [0, 0, 1]], visited_warden = [1, 0, 1],
                  d = 2, light_on = True\<rparr>"
  let ?s3 = "\<lparr>seen = [[1, 0, 0], [1, 1, 0], [0, 0, 1]], visited_warden = [1, 1, 1],
                  d = 3, light_on = False\<rparr>"
  have e: "np_eye 3 = Inr (seen ?s0)" and z: "np_zeros 3 = Inr (visited_warden ?s0)"
    by (simp_all add: eval_defs eval_nat_numeral)
  have r1: "loop_run scripted 3 3 ([2, 0, 1], ?s0) [2] ([0, 1], ?s1)"
    by (rule loop_run_dayI[OF loop_run.start]) (simp_all add: eval_defs)
  have r2: "loop_run scripted 3 3 ([2, 0, 1], ?s0) [2, 0] ([1], ?s2)"
    by (rule loop_run_dayI[OF r1]) (simp_all add: eval_defs)
  have r3: "loop_run scripted 3 3 ([1], ?s2) [1] ([], ?s3)"
    by (rule loop_run_dayI[OF loop_run.start]) (simp_all add: eval_defs)
  from seen_diagonal_and_monotone[of 3 "seen ?s0" "visited_warden ?s0" scripted 3
         "[2, 0, 1]" "[2, 0]" "[1]" ?s2 "[1]" "[]" ?s3] e z r2 r3
  have "(\<forall>i<nat 3. seen ?s2 ! i ! i = 1) \<and>
        (\<forall>i<nat 3. \<forall>j<nat 3. seen ?s2 ! i ! j \<le> seen ?s3 ! i ! j)"
    by simp
  then have "seen ?s2 ! 0 ! 0 = 1 \<and> seen ?s2 ! 1 ! 1 = 1 \<and> seen ?s2 ! 2 ! 2 = 1 \<and>
             seen ?s2 ! 1 ! 0 \<le> seen ?s3 ! 1 ! 0 \<and> seen ?s2 ! 2 ! 2 \<le> seen ?s3 ! 2 ! 2"
    by simp
  with r2 r3 show ?thesis by simp
qed

text \<open>
  Claim C8, as stated, fails: the light is put out on the days with
  \<open>d mod K = K - 1\<close>, and for a negative \<open>K\<close>, which \<open>do_simulation\<close> accepts, there is no
  such day. With \<open>N = 3\<close>, \<open>K = -1\<close> and the draws 0, 1: on day 0 the observer 0 is
  drawn and the light goes on; day 1 is the first day of the next window, its
  observer is 2, the light is still on, and the visitor 1 records \<open>seen[1][2]\<close> though
  prisoner 2 has never been drawn.
\<close>

theorem stale_light_counterexample:
  "loop_run scripted 3 (- 1)
     ([0, 1], \<lparr>seen = [[1, 0, 0], [0, 1, 0], [0, 0, 1]], visited_warden = [0, 0, 0],
               d = 0, light_on = False\<rparr>)
     [0]
     ([1], \<lparr>seen = [[1, 0, 0], [0, 1, 0], [0, 0, 1]], visited_warden = [1, 0, 0],
            d = 1, light_on = True\<rparr>) \<and>
   loop_test 3 [[1, 0, 0], [0, 1, 0], [0, 0, 1]] = Inr True \<and>
   loop_body scripted 3 (- 1)
     ([1], \<lparr>seen = [[1, 0, 0], [0, 1, 0], [0, 0, 1]], visited_warden = [1, 0, 0],
            d = 1, light_on = True\<rparr>) =
     Inr ([], \<lparr>seen = [[1, 0, 0], [0, 1, 1], [0, 0, 1]], visited_warden = [1, 1, 0],
               d = 2, light_on = True\<rparr>) \<and>
   (0::int) div (- 1) \<noteq> 1 div (- 1) \<and>
   nat ((1 div (- 1)) mod 3) = 2 \<and>
   (2::nat) \<notin> set [0]"
proof -
  let ?s0 = "\<lparr>seen = [[1, 0, 0], [0, 1, 0], [0, 0, 1]], visited_warden = [0, 0, 0],
                  d = 0, light_on = False\<rparr>"
  let ?s1 = "\<lparr>seen = [[1, 0, 0], [0, 1, 0], [0, 0, 1]], visited_warden = [1, 0, 0],
                  d = 1, light_on = True\<rparr>"
  have r: "loop_run scripted 3 (- 1) ([0, 1], ?s0) [0] ([1], ?s1)"
    by (rule loop_run_dayI[OF loop_run.start]) (simp_all add: eval_defs)
  have t: "loop_test 3 [[1, 0, 0], [0, 1, 0], [0, 0, 1]] = Inr True"
    by (simp add: eval_defs)
  have b: "loop_body scripted 3 (- 1) ([1], ?s1) =
     Inr ([], \<lparr>seen = [[1, 0, 0], [0, 1, 1], [0, 0, 1]], visited_warden = [1, 1, 0],
               d = 2, light_on = True\<rparr>)"
    by (simp add: eval_defs)
  from r t b show ?thesis by simp
qed

text \<open>
  Claim C8, amended. For \<open>K \<ge> 1\<close>, at the start of day \<open>d\<close> (the number of draws made so
  far): the light is off when \<open>d\<close> is the first day of a rotation window; the light is
  on only if the observer \<open>x\<close> of the day was drawn on a strictly earlier day \<open>k\<close> of
  the same window (\<open>k div K = d div K\<close>); and the day writes \<open>seen\<close> only at the entry
  of the visitor for \<open>x\<close>, and only when the light is on and the visitor is not \<open>x\<close>.
\<close>

theorem seen_recorded_only_after_observer_visit:
  assumes "1 \<le> K" "np_eye N = Inr seen0" "np_zeros N = Inr visited0"
    and "loop_run np N K
           (g0, \<lparr>seen = seen0, visited_warden = visited0, d = 0, light_on = False\<rparr>) ws (g1, s1)"
    and "loop_test N (seen s1) = Inr True"
    and "loop_body np N K (g1, s1) = Inr (g2, s2)"
  shows "d s1 = int (length ws) \<and>
         (d s1 mod K = 0 \<longrightarrow> \<not> light_on s1) \<and>
         (light_on s1 \<longrightarrow>
            (\<exists>k<length ws. int k div K = d s1 div K \<and> ws ! k = nat ((d s1 div K) mod N))) \<and>
         seen s2 =
           (if fst (np_randint np (nat N) g1) \<noteq> nat ((d s1 div K) mod N) \<and> light_on s1
            then (seen s1)[fst (np_randint np (nat N) g1) :=
                   (seen s1 ! fst (np_randint np (nat N) g1))[nat ((d s1 div K) mod N) := 1]]
            else seen s1)"
proof -
  let ?s0 = "\<lparr>seen = seen0, visited_warden = visited0, d = 0, light_on = False\<rparr>"
  have dn: "d s1 = int (length ws)" using loop_run_d[OF assms(4)] by simp
  have light: "\<exists>k<length ws. int k div K = d s1 div K \<and> ws ! k = nat ((d s1 div K) mod N)"
    if "light_on s1"
    using loop_run_light[OF assms(4) assms(1)] that dn by simp
  have first: "\<not> light_on s1" if m: "d s1 mod K = 0"
  proof
    assume "light_on s1"
    from light[OF this] obtain k where k: "k < length ws" "int k div K = d s1 div K" by blast
    have "d s1 = (d s1 div K) * K" using m by (simp add: mod_eq_0_iff_dvd)
    moreover have "int k = (int k div K) * K + int k mod K" by simp
    moreover have "0 \<le> int k mod K" using assms(1) by simp
    ultimately have "d s1 \<le> int k" using k(2) by simp
    with k(1) dn show False by simp
  qed
  from assms(6) obtain w where w: "np_randint np (nat N) g1 = (w, g2)"
    "seen s2 = (if w \<noteq> nat ((d s1 div K) mod N) \<and> light_on s1
                then (seen s1)[w := (seen s1 ! w)[nat ((d s1 div K) mod N) := 1]] else seen s1)"
    by (rule loop_body_cases)
  have rec: "seen s2 =
           (if fst (np_randint np (nat N) g1) \<noteq> nat ((d s1 div K) mod N) \<and> light_on s1
            then (seen s1)[fst (np_randint np (nat N) g1) :=
                   (seen s1 ! fst (np_randint np (nat N) g1))[nat ((d s1 div K) mod N) := 1]]
            else seen s1)"
    using w by simp
  from dn first light rec show ?thesis by blast
qed

theorem seen_recorded_only_after_observer_visit_witness:
  "(1::int) \<le> 3 \<and>
   loop_run scripted 3 3
     ([2, 0, 1], \<lparr>seen = [[1, 0, 0], [0, 1, 0], [0, 0, 1]], visited_warden = [0, 0, 0],
                  d = 0, light_on = False\<rparr>)
     [2, 0]
     ([1], \<lparr>seen = [[1, 0, 0], [0, 1, 0], [0, 0, 1]], visited_warden = [1, 0, 1],
            d = 2, light_on = True\<rparr>) \<and>
   loop_body scripted 3 3
     ([1], \<lparr>seen = [[1, 0, 0], [0, 1, 0], [0, 0, 1]], visited_warden = [1, 0, 1],
            d = 2, light_on = True\<rparr>) =
     Inr ([], \<lparr>seen = [[1, 0, 0], [1, 1, 0], [0, 0, 1]], visited_warden = [1, 1, 1],
               d = 3, light_on = False\<rparr>) \<and>
   (\<exists>k<length [2, 0::nat]. int k div 3 = 2 div 3 \<and> [2, 0] ! k = nat ((2 div 3) mod 3))"
proof -
  let ?s0 = "\<lparr>seen = [[1, 0, 0], [0, 1, 0], [0, 0, 1]], visited_warden = [0, 0, 0],
                  d = 0, light_on = False\<rparr>"
  let ?s1 = "\<lparr>seen = [[1, 0, 0], [0, 1, 0], [0, 0, 1]], visited_warden = [0, 0, 1],
                  d = 1, light_on = False\<rparr>"
  let ?s2 = "\<lparr>seen = [[1, 0, 0], [0, 1, 0], [0, 0, 1]], visited_warden = [1, 0, 1],
                  d = 2, light_on = True\<rparr>"
  let ?s3 = "\<lparr>seen = [[1, 0, 0], [1, 1, 0], [0, 0, 1]], visited_warden = [1, 1, 1],
                  d = 3, light_on = False\<rparr>"
  have k: "(1::int) \<le> 3" by simp
  have e: "np_eye 3 = Inr (seen ?s0)" and z: "np_zeros 3 = Inr (visited_warden ?s0)"
    by (simp_all add: eval_defs eval_nat_numeral)
  have r1: "loop_run scripted 3 3 ([2, 0, 1], ?s0) [2] ([0, 1], ?s1)"
    by (rule loop_run_dayI[OF loop_run.start]) (simp_all add: eval_defs)
  have r2: "loop_run scripted 3 3 ([2, 0, 1], ?s0) [2, 0] ([1], ?s2)"
    by (rule loop_run_dayI[OF r1]) (simp_all add: eval_defs)
  have t: "loop_test 3 (seen ?s2) = Inr True" by (simp add: eval_defs)
  have b: "loop_body scripted 3 3 ([1], ?s2) = Inr ([], ?s3)" by (simp add: eval_defs)
  from seen_recorded_only_after_observer_visit[of 3 3 "seen ?s0" "visited_warden ?s0" scripted
         "[2, 0, 1]" "[2, 0]" "[1]" ?s2 "[]" ?s3, OF k e z _ t b] r2
  have "\<exists>k<length [2, 0::nat]. int k div 3 = 2 div 3 \<and> [2, 0] ! k = nat ((2 div 3) mod 3)"
    by simp
  with k r2 b show ?thesis by blast
qed







end
